theory Spec2Isabelle
  imports Main
begin

section \<open>The download-and-cache module \<open>biocypher/_get.py\<close>\<close>

text \<open>
  A shallow embedding of \<open>Resource\<close>, \<open>Downloader\<close> and \<open>is_nested\<close>.
  Python objects that are mutated in place (the \<open>Resource\<close> objects a caller hands to
  \<open>download\<close>) live in a heap indexed by addresses; the \<open>Downloader\<close> object, the file
  system, the clock and a trace of the calls made to the collaborators (the logger,
  \<open>pooch.retrieve\<close>, \<open>ftplib.FTP\<close>) are fields of an explicit state. Every function returns
  its result together with the state it leaves behind, also when it raises.
\<close>

subsection \<open>Values\<close>

text \<open>
  A \<open>datetime\<close> is the number of microseconds since 0001-01-01 00:00:00 (naive time, as
  \<open>datetime.now()\<close> gives it), a \<open>timedelta\<close> a number of microseconds.
\<close>

type_synonym timestamp = int

datatype error =
    TypeError
  | AttributeError
  | OverflowError
  | UnboundLocalError
  | JSONDecodeError
  | IsADirectoryError
  | Raised string

text \<open>
  \<open>Raised msg\<close> is an exception that comes out of a collaborator (a failed transfer, a
  refused connection). The values a call can return: \<open>None\<close>, a string, a list.
\<close>

datatype pyval = PNone | PStr string | PList "pyval list"

datatype url_value = Url string | UrlList "string list"

record Resource =
  name :: string
  url_s :: url_value
  lifetime :: int
  is_dir :: bool

definition Resource_init :: "string \<Rightarrow> url_value \<Rightarrow> int \<Rightarrow> bool \<Rightarrow> Resource" where
  "Resource_init n u l d = \<lparr>name = n, url_s = u, lifetime = l, is_dir = d\<rparr>"

text \<open>
  The value under the key \<open>date_downloaded\<close> of a cache record is a \<open>datetime\<close> object
  when \<open>_update_cache_record\<close> has stored it, and the text \<open>str\<close> makes of a \<open>datetime\<close> when
  it was read back from the JSON file (\<open>json.dump\<close> is called with \<open>default=str\<close>).
  \<open>IsoText t\<close> stands for the text of the instant \<open>t\<close>.
\<close>

datatype date_value = DateTime timestamp | IsoText timestamp

record cache_record =
  url :: url_value
  date_downloaded :: date_value
  record_lifetime :: int

text \<open>
  A file holds either a JSON document (given by the dictionary it denotes) or text
  that is not JSON.
\<close>

datatype file_content = JsonDoc "string \<Rightarrow> cache_record option" | Malformed string

record Downloader =
  cache_dir :: string
  cache_file :: string
  cache_dict :: "string \<Rightarrow> cache_record option"

datatype processor = Unzip | Untar | Decompress

datatype event =
    LogInfo string
  | FtpList string string
  | Retrieve string "string option" string string "processor option"

text \<open>
  \<open>FtpList host dir\<close>: a session \<open>FTP(host)\<close>, \<open>login()\<close>, \<open>cwd(dir)\<close>, \<open>nlst()\<close>, \<open>quit()\<close>.
  \<open>Retrieve url known_hash fname path processor\<close>: one call of \<open>pooch.retrieve\<close>.
\<close>

record state =
  self :: Downloader
  heap :: "nat \<Rightarrow> Resource"
  files :: "string \<Rightarrow> file_content option"
  dirs :: "string set"
  ticks :: nat
  events :: "event list"

text \<open>
  The collaborators: \<open>clock k\<close> is what the \<open>k\<close>-th call of \<open>datetime.now()\<close> returns
  (nothing makes it monotone), \<open>pooch_retrieve\<close> and \<open>ftp_nlst\<close> answer or raise, and
  \<open>tmpdir_name\<close> is the name \<open>TemporaryDirectory()\<close> hands out.
\<close>

record env =
  clock :: "nat \<Rightarrow> timestamp"
  pooch_retrieve ::
    "string \<Rightarrow> string option \<Rightarrow> string \<Rightarrow> string \<Rightarrow> processor option \<Rightarrow> error + pyval"
  ftp_nlst :: "string \<Rightarrow> string \<Rightarrow> error + string list"
  tmpdir_name :: string

subsection \<open>Library functions\<close>

definition startswith :: "string \<Rightarrow> string \<Rightarrow> bool" where
  "startswith s p = (take (length p) s = p)"

definition endswith :: "string \<Rightarrow> string \<Rightarrow> bool" where
  "endswith s x = (length x \<le> length s \<and> drop (length s - length x) s = x)"

text \<open>\<open>s.find(c)\<close> and \<open>s.rfind(c)\<close> for a one-character \<open>c\<close>: \<open>-1\<close> when it is absent.\<close>

definition py_find :: "string \<Rightarrow> char \<Rightarrow> int" where
  "py_find s c = (if c \<in> set s then int (length (takeWhile (\<lambda>x. x \<noteq> c) s)) else - 1)"

definition py_rfind :: "string \<Rightarrow> char \<Rightarrow> int" where
  "py_rfind s c =
     (if c \<in> set s then int (length s) - 1 - int (length (takeWhile (\<lambda>x. x \<noteq> c) (rev s)))
      else - 1)"

text \<open>The slices \<open>s[i:]\<close> and \<open>s[:j]\<close>; a negative index counts from the end.\<close>

definition slice_from :: "string \<Rightarrow> int \<Rightarrow> string" where
  "slice_from s i = (if i < 0 then drop (nat (int (length s) + i)) s else drop (nat i) s)"

definition slice_to :: "string \<Rightarrow> int \<Rightarrow> string" where
  "slice_to s j = (if j < 0 then take (nat (int (length s) + j)) s else take (nat j) s)"

text \<open>\<open>os.path.join\<close> of two components (POSIX).\<close>

definition path_join :: "string \<Rightarrow> string \<Rightarrow> string" where
  "path_join a b =
     (if startswith b ''/'' then b
      else if a = [] \<or> endswith a ''/'' then a @ b
      else a @ ''/'' @ b)"

definition path_exists :: "state \<Rightarrow> string \<Rightarrow> bool" where
  "path_exists s p = (p \<in> dirs s \<or> files s p \<noteq> None)"

text \<open>
  \<open>timedelta(days=d)\<close> raises beyond 999999999 days; \<open>datetime + timedelta\<close> raises when the
  sum leaves the years 1 to 9999 (3652059 days).
\<close>

definition timedelta :: "int \<Rightarrow> error + int" where
  "timedelta d = (if \<bar>d\<bar> \<le> 999999999 then Inr (d * 86400000000) else Inl OverflowError)"

definition datetime_add :: "timestamp \<Rightarrow> int \<Rightarrow> error + timestamp" where
  "datetime_add t d =
     (if 0 \<le> t + d \<and> t + d < 3652059 * 86400000000 then Inr (t + d) else Inl OverflowError)"

text \<open>\<open>datetime.fromisoformat\<close> takes a string; any other argument is a \<open>TypeError\<close>.\<close>

fun fromisoformat :: "date_value \<Rightarrow> error + timestamp" where
  "fromisoformat (IsoText t) = Inr t"
| "fromisoformat (DateTime t) = Inl TypeError"

definition datetime_now :: "env \<Rightarrow> state \<Rightarrow> timestamp \<times> state" where
  "datetime_now e s = (clock e (ticks s), s\<lparr>ticks := Suc (ticks s)\<rparr>)"

definition logger_info :: "string \<Rightarrow> state \<Rightarrow> state" where
  "logger_info msg s = s\<lparr>events := events s @ [LogInfo msg]\<rparr>"

text \<open>\<open>json.dump(d, f, default=str)\<close> writes a \<open>datetime\<close> as its text; \<open>json.load\<close>.\<close>

fun json_default :: "date_value \<Rightarrow> date_value" where
  "json_default (DateTime t) = IsoText t"
| "json_default (IsoText t) = IsoText t"

definition json_dump :: "(string \<Rightarrow> cache_record option) \<Rightarrow> file_content" where
  "json_dump d =
     JsonDoc (\<lambda>k. map_option (\<lambda>r. r\<lparr>date_downloaded := json_default (date_downloaded r)\<rparr>) (d k))"

fun json_load :: "file_content \<Rightarrow> error + (string \<Rightarrow> cache_record option)" where
  "json_load (JsonDoc d) = Inr d"
| "json_load (Malformed t) = Inl JSONDecodeError"

subsection \<open>\<open>Downloader\<close>\<close>

text \<open>\<open>_load_cache_dict\<close>, for the \<open>cache_dir\<close> and \<open>cache_file\<close> that \<open>__init__\<close> has set.\<close>

definition load_cache_dict ::
  "string \<Rightarrow> string \<Rightarrow> state \<Rightarrow> (error + (string \<Rightarrow> cache_record option)) \<times> state" where
  "load_cache_dict cd cf s =
     (let s1 = (if \<not> path_exists s cd
                then (logger_info (''Creating cache directory '' @ cd @ ''.'') s)
                       \<lparr>dirs := insert cd (dirs s)\<rparr>
                else s);
          s2 = (if \<not> path_exists s1 cf
                then (logger_info (''Creating cache file '' @ cf @ ''.'') s1)
                       \<lparr>files := (files s1)(cf \<mapsto> json_dump Map.empty)\<rparr>
                else s1)
      in case files s2 cf of
           None \<Rightarrow> (Inl IsADirectoryError, s2)
         | Some c \<Rightarrow> (json_load c, logger_info (''Loading cache file '' @ cf @ ''.'') s2))"

definition Downloader_init :: "env \<Rightarrow> string \<Rightarrow> state \<Rightarrow> (error + unit) \<times> state" where
  "Downloader_init e d s =
     (let cd = (if d = [] then tmpdir_name e else d);
          cf = path_join cd ''cache.json''
      in case load_cache_dict cd cf s of
           (Inl err, s1) \<Rightarrow> (Inl err, s1)
         | (Inr dict, s1) \<Rightarrow>
             (Inr (), s1\<lparr>self := \<lparr>cache_dir = cd, cache_file = cf, cache_dict = dict\<rparr>\<rparr>))"

text \<open>\<open>_get_cache_record\<close>: \<open>None\<close> is the empty dictionary of \<open>.get(name, {})\<close>.\<close>

definition get_cache_record :: "Resource \<Rightarrow> state \<Rightarrow> cache_record option" where
  "get_cache_record r s = cache_dict (self s) (name r)"

definition update_cache_record :: "env \<Rightarrow> Resource \<Rightarrow> state \<Rightarrow> state" where
  "update_cache_record e r s =
     (let (t, s1) = datetime_now e s;
          cache_record = \<lparr>url = url_s r, date_downloaded = DateTime t,
                          record_lifetime = lifetime r\<rparr>;
          s2 = s1\<lparr>self := (self s1)\<lparr>cache_dict := (cache_dict (self s1))(name r \<mapsto> cache_record)\<rparr>\<rparr>
      in s2\<lparr>files := (files s2)(cache_file (self s2) \<mapsto> json_dump (cache_dict (self s2)))\<rparr>)"

text \<open>
  \<open>_get_files\<close>. Its locals \<open>url\<close> (the host, cut out of the URL behind \<open>ftp://\<close>) and
  \<open>dir\<close> are \<open>ftp_host\<close> and \<open>ftp_dir\<close>. For any other URL the local \<open>files\<close> is never
  bound, and \<open>return files\<close> raises.
\<close>

definition ftp_host :: "string \<Rightarrow> string" where
  "ftp_host u = slice_to (slice_from u 6) (py_find (slice_from u 6) CHR ''/'')"

definition ftp_dir :: "string \<Rightarrow> string" where
  "ftp_dir u = slice_from u (7 + int (length (ftp_host u)))"

definition get_files :: "env \<Rightarrow> Resource \<Rightarrow> state \<Rightarrow> (error + string list) \<times> state" where
  "get_files e r s =
     (case url_s r of
        UrlList us \<Rightarrow> (Inl AttributeError, s)
      | Url u \<Rightarrow>
          if startswith u ''ftp://'' then
            (ftp_nlst e (ftp_host u) (ftp_dir u),
             s\<lparr>events := events s @ [FtpList (ftp_host u) (ftp_dir u)]\<rparr>)
          else (Inl UnboundLocalError, s))"

definition pooch_call ::
  "env \<Rightarrow> string \<Rightarrow> string option \<Rightarrow> string \<Rightarrow> string \<Rightarrow> processor option \<Rightarrow> state
     \<Rightarrow> (error + pyval) \<times> state" where
  "pooch_call e u kh fname path proc s =
     (pooch_retrieve e u kh fname path proc,
      s\<lparr>events := events s @ [Retrieve u kh fname path proc]\<rparr>)"

definition retrieve ::
  "env \<Rightarrow> string \<Rightarrow> string \<Rightarrow> string \<Rightarrow> string option \<Rightarrow> state \<Rightarrow> (error + pyval) \<times> state" where
  "retrieve e u fname path known_hash s =
     (if endswith fname ''.zip'' then pooch_call e u known_hash fname path (Some Unzip) s
      else if endswith fname ''.tar.gz'' then pooch_call e u known_hash fname path (Some Untar) s
      else if endswith fname ''.gz'' then pooch_call e u known_hash fname path (Some Decompress) s
      else pooch_call e u known_hash fname path None s)"

text \<open>The loop over \<open>resource.url_s\<close> of a list resource, \<open>paths\<close> its accumulator.\<close>

fun retrieve_urls ::
  "env \<Rightarrow> Resource \<Rightarrow> string list \<Rightarrow> pyval list \<Rightarrow> state \<Rightarrow> (error + pyval list) \<times> state" where
  "retrieve_urls e r [] paths s = (Inr paths, s)"
| "retrieve_urls e r (u # us) paths s =
     (case retrieve e u (name r @ ''_'' @ slice_from u (py_rfind u CHR ''/'' + 1))
             (path_join (cache_dir (self s)) (name r)) None s of
        (Inl err, s1) \<Rightarrow> (Inl err, s1)
      | (Inr p, s1) \<Rightarrow> retrieve_urls e r us (paths @ [p]) s1)"

text \<open>The freshness check that opens \<open>_download_or_cache\<close>.\<close>

definition cache_expired :: "env \<Rightarrow> Resource \<Rightarrow> state \<Rightarrow> (error + bool) \<times> state" where
  "cache_expired e r s =
     (case get_cache_record r s of
        None \<Rightarrow> (Inr True, s)
      | Some cache_record \<Rightarrow>
          (case fromisoformat (date_downloaded cache_record) of
             Inl err \<Rightarrow> (Inl err, s)
           | Inr dl \<Rightarrow>
               (case timedelta (lifetime r) of
                  Inl err \<Rightarrow> (Inl err, s)
                | Inr lt \<Rightarrow>
                    (case datetime_add dl lt of
                       Inl err \<Rightarrow> (Inl err, s)
                     | Inr due \<Rightarrow>
                         (let (t, s1) = datetime_now e s in (Inr (due < t), s1))))))"

text \<open>The rewriting of a directory resource: \<open>url_s\<close> first, then \<open>is_dir\<close>.\<close>

definition expand_dir :: "nat \<Rightarrow> string \<Rightarrow> string list \<Rightarrow> state \<Rightarrow> state" where
  "expand_dir a u fnames s =
     (let s1 = s\<lparr>heap := (heap s)(a := (heap s a)\<lparr>url_s := UrlList (map (\<lambda>f. u @ ''/'' @ f) fnames)\<rparr>)\<rparr>
      in s1\<lparr>heap := (heap s1)(a := (heap s1 a)\<lparr>is_dir := False\<rparr>)\<rparr>)"

text \<open>
  The \<open>elif\<close> and \<open>else\<close> branches of \<open>_download_or_cache\<close>: a list of URLs, a single URL.
\<close>

definition retrieve_files :: "env \<Rightarrow> Resource \<Rightarrow> state \<Rightarrow> (error + pyval) \<times> state" where
  "retrieve_files e r s =
     (case url_s r of
        UrlList us \<Rightarrow>
          (case retrieve_urls e r us [] s of
             (Inl err, s1) \<Rightarrow> (Inl err, s1)
           | (Inr paths, s1) \<Rightarrow> (Inr (PList paths), s1))
      | Url u \<Rightarrow>
          retrieve e u (slice_from u (py_rfind u CHR ''/'' + 1))
            (path_join (cache_dir (self s)) (name r)) None s)"

text \<open>The message of \<open>logger.info\<close> that opens the download branch.\<close>

definition downloading :: "Resource \<Rightarrow> string" where
  "downloading r = ''Downloading resource '' @ name r @ ''.''"

text \<open>
  \<open>_download_or_cache\<close>, for the resource object at address \<open>a\<close>. Its attributes are read
  from the heap the call starts in: nothing before the rewriting of a directory resource
  writes to the heap. A call that finds the cache fresh falls off the end of the function
  and returns \<open>None\<close>.
\<close>

function download_or_cache :: "env \<Rightarrow> nat \<Rightarrow> bool \<Rightarrow> state \<Rightarrow> (error + pyval) \<times> state" where
  "download_or_cache e a cache s =
     (case cache_expired e (heap s a) s of
        (Inl err, s1) \<Rightarrow> (Inl err, s1)
      | (Inr expired, s1) \<Rightarrow>
          if expired \<or> \<not> cache then
            (case
               (if is_dir (heap s a) then
                  (case get_files e (heap s a) (logger_info (downloading (heap s a)) s1) of
                     (Inl err, s2) \<Rightarrow> (Inl err, s2)
                   | (Inr fnames, s2) \<Rightarrow>
                       (case url_s (heap s a) of
                          UrlList us \<Rightarrow> (Inl TypeError, s2)
                        | Url u \<Rightarrow> download_or_cache e a cache (expand_dir a u fnames s2)))
                else retrieve_files e (heap s a) (logger_info (downloading (heap s a)) s1))
             of
               (Inl err, s3) \<Rightarrow> (Inl err, s3)
             | (Inr paths, s3) \<Rightarrow> (Inr paths, update_cache_record e (heap s3 a) s3))
          else (Inr PNone, s1))"
  by pat_completeness auto

termination download_or_cache
  by (relation "measure (\<lambda>(e, a, c, s). if is_dir (heap s a) then 1 else 0)")
    (simp_all add: expand_dir_def Let_def)

subsection \<open>\<open>is_nested\<close> and \<open>download\<close>\<close>

fun isinstance_list :: "pyval \<Rightarrow> bool" where
  "isinstance_list (PList xs) = True"
| "isinstance_list (PStr x) = False"
| "isinstance_list PNone = False"

fun is_nested :: "pyval list \<Rightarrow> bool" where
  "is_nested [] = False"
| "is_nested (item # lst) = (if isinstance_list item then True else is_nested lst)"

text \<open>
  What \<open>for path in sublist\<close> runs through: the items of a list, the one-character
  strings of a string; \<open>None\<close> is not iterable.
\<close>

fun iterate :: "pyval \<Rightarrow> error + pyval list" where
  "iterate (PList xs) = Inr xs"
| "iterate (PStr x) = Inr (map (\<lambda>c. PStr [c]) x)"
| "iterate PNone = Inl TypeError"

text \<open>The comprehension \<open>[path for sublist in paths for path in sublist]\<close>.\<close>

fun flatten :: "pyval list \<Rightarrow> error + pyval list" where
  "flatten [] = Inr []"
| "flatten (sublist # paths) =
     (case iterate sublist of
        Inl err \<Rightarrow> Inl err
      | Inr xs \<Rightarrow> (case flatten paths of Inl err \<Rightarrow> Inl err | Inr ys \<Rightarrow> Inr (xs @ ys)))"

text \<open>The loop of \<open>download\<close> over the addresses of its arguments.\<close>

fun download_each ::
  "env \<Rightarrow> nat list \<Rightarrow> pyval list \<Rightarrow> state \<Rightarrow> (error + pyval list) \<times> state" where
  "download_each e [] paths s = (Inr paths, s)"
| "download_each e (a # resources) paths s =
     (case download_or_cache e a True s of
        (Inl err, s1) \<Rightarrow> (Inl err, s1)
      | (Inr p, s1) \<Rightarrow> download_each e resources (paths @ [p]) s1)"

definition download :: "env \<Rightarrow> nat list \<Rightarrow> state \<Rightarrow> (error + pyval list) \<times> state" where
  "download e resources s =
     (case download_each e resources [] s of
        (Inl err, s1) \<Rightarrow> (Inl err, s1)
      | (Inr paths, s1) \<Rightarrow>
          if is_nested paths then
            (case flatten paths of Inl err \<Rightarrow> (Inl err, s1) | Inr flat \<Rightarrow> (Inr flat, s1))
          else (Inr paths, s1))"

section \<open>Reading the trace\<close>

text \<open>The calls made to the collaborators, read off the trace.\<close>

fun retrieval :: "event \<Rightarrow> (string \<times> string \<times> string) list" where
  "retrieval (Retrieve u kh fname path proc) = [(u, fname, path)]"
| "retrieval (FtpList host dir) = []"
| "retrieval (LogInfo msg) = []"

fun listing :: "event \<Rightarrow> (string \<times> string) list" where
  "listing (FtpList host dir) = [(host, dir)]"
| "listing (Retrieve u kh fname path proc) = []"
| "listing (LogInfo msg) = []"

definition retrievals :: "event list \<Rightarrow> (string \<times> string \<times> string) list" where
  "retrievals es = concat (map retrieval es)"

definition listings :: "event list \<Rightarrow> (string \<times> string) list" where
  "listings es = concat (map listing es)"

text \<open>Two states that differ in the trace at most.\<close>

definition same_but_events :: "state \<Rightarrow> state \<Rightarrow> bool" where
  "same_but_events s s' =
     (self s' = self s \<and> heap s' = heap s \<and> files s' = files s \<and> dirs s' = dirs s \<and>
      ticks s' = ticks s)"

section \<open>Examples\<close>

text \<open>
  A concrete environment: the clock starts one day after the epoch and advances by a
  microsecond per reading, every retrieval answers with the path of the file, and the
  listing of every directory is two names.
\<close>

definition example_env :: env where
  "example_env =
     \<lparr>clock = (\<lambda>k. 86400000000 + int k),
      pooch_retrieve = (\<lambda>u kh fname path proc. Inr (PStr (path_join path fname))),
      ftp_nlst = (\<lambda>host dir. Inr [''a.txt'', ''b.gz'']),
      tmpdir_name = ''/tmp/t''\<rparr>"

definition example_state :: state where
  "example_state =
     \<lparr>self = \<lparr>cache_dir = ''c'', cache_file = ''c/cache.json'', cache_dict = Map.empty\<rparr>,
      heap = (\<lambda>a. Resource_init ''r'' (Url ''http://h/a.txt'') 0 False),
      files = Map.empty, dirs = {''c''}, ticks = 0, events = []\<rparr>"

definition corrupt_state :: state where
  "corrupt_state = example_state\<lparr>files := [''c/cache.json'' \<mapsto> Malformed ''{not json'']\<rparr>"

text \<open>
  A \<open>Downloader\<close> that has loaded a store in which the resource \<open>r\<close> was downloaded at the
  instant 0, for a resource with a lifetime of two days and for one with lifetime 0.
\<close>

definition stored_state :: state where
  "stored_state =
     \<lparr>self = \<lparr>cache_dir = ''c'', cache_file = ''c/cache.json'',
              cache_dict = [''r'' \<mapsto> \<lparr>url = Url ''http://h/a.txt'',
                 date_downloaded = IsoText 0, record_lifetime = 2\<rparr>]\<rparr>,
      heap = (\<lambda>a. Resource_init ''r'' (Url ''http://h/a.txt'') 2 False),
      files = Map.empty, dirs = {''c''}, ticks = 0, events = []\<rparr>"

definition permanent_state :: state where
  "permanent_state =
     \<lparr>self = \<lparr>cache_dir = ''c'', cache_file = ''c/cache.json'',
              cache_dict = [''r'' \<mapsto> \<lparr>url = Url ''http://h/a.txt'',
                 date_downloaded = IsoText 0, record_lifetime = 0\<rparr>]\<rparr>,
      heap = (\<lambda>a. Resource_init ''r'' (Url ''http://h/a.txt'') 0 False),
      files = Map.empty, dirs = {''c''}, ticks = 0, events = []\<rparr>"

text \<open>
  A \<open>Downloader\<close> with an empty store and a directory resource on an ftp server, the same
  with an http URL, and a batch of a single-file resource and a list resource.
\<close>

definition dir_state :: state where
  "dir_state =
     \<lparr>self = \<lparr>cache_dir = ''c'', cache_file = ''c/cache.json'', cache_dict = Map.empty\<rparr>,
      heap = (\<lambda>a. Resource_init ''d'' (Url ''ftp://h/x'') 0 True),
      files = Map.empty, dirs = {''c''}, ticks = 0, events = []\<rparr>"

definition http_dir_state :: state where
  "http_dir_state =
     \<lparr>self = \<lparr>cache_dir = ''c'', cache_file = ''c/cache.json'', cache_dict = Map.empty\<rparr>,
      heap = (\<lambda>a. Resource_init ''d'' (Url ''http://h/x'') 0 True),
      files = Map.empty, dirs = {''c''}, ticks = 0, events = []\<rparr>"

definition mixed_state :: state where
  "mixed_state =
     \<lparr>self = \<lparr>cache_dir = ''c'', cache_file = ''c/cache.json'', cache_dict = Map.empty\<rparr>,
      heap = (\<lambda>a. if a = 0 then Resource_init ''r'' (Url ''http://h/a.txt'') 0 False
                   else Resource_init ''m'' (UrlList [''http://h/b.txt'']) 0 False),
      files = Map.empty, dirs = {''c''}, ticks = 0, events = []\<rparr>"


section \<open>Lemmas about the steps of a call\<close>

lemma retrievals_simps [simp]:
  "retrievals [] = []"
  "retrievals (ev # es) = retrieval ev @ retrievals es"
  "retrievals (es @ es') = retrievals es @ retrievals es'"
  by (simp_all add: retrievals_def)

lemma listings_simps [simp]:
  "listings [] = []"
  "listings (ev # es) = listing ev @ listings es"
  "listings (es @ es') = listings es @ listings es'"
  by (simp_all add: listings_def)

subsection \<open>Unfolding the call\<close>

lemma download_or_cache_file:
  "\<not> is_dir (heap s a) \<Longrightarrow>
   download_or_cache e a cache s =
     (case cache_expired e (heap s a) s of
        (Inl err, s1) \<Rightarrow> (Inl err, s1)
      | (Inr expired, s1) \<Rightarrow>
          if expired \<or> \<not> cache then
            (case retrieve_files e (heap s a) (logger_info (downloading (heap s a)) s1) of
               (Inl err, s3) \<Rightarrow> (Inl err, s3)
             | (Inr paths, s3) \<Rightarrow> (Inr paths, update_cache_record e (heap s3 a) s3))
          else (Inr PNone, s1))"
  by (subst download_or_cache.simps) (simp split: prod.splits sum.splits)

lemma download_or_cache_dir:
  "is_dir (heap s a) \<Longrightarrow>
   download_or_cache e a cache s =
     (case cache_expired e (heap s a) s of
        (Inl err, s1) \<Rightarrow> (Inl err, s1)
      | (Inr expired, s1) \<Rightarrow>
          if expired \<or> \<not> cache then
            (case
               (case get_files e (heap s a) (logger_info (downloading (heap s a)) s1) of
                  (Inl err, s2) \<Rightarrow> (Inl err, s2)
                | (Inr fnames, s2) \<Rightarrow>
                    (case url_s (heap s a) of
                       UrlList us \<Rightarrow> (Inl TypeError, s2)
                     | Url u \<Rightarrow> download_or_cache e a cache (expand_dir a u fnames s2)))
             of
               (Inl err, s3) \<Rightarrow> (Inl err, s3)
             | (Inr paths, s3) \<Rightarrow> (Inr paths, update_cache_record e (heap s3 a) s3))
          else (Inr PNone, s1))"
  by (subst download_or_cache.simps) (simp split: prod.splits sum.splits)

subsection \<open>What each step leaves of the state\<close>

lemma logger_info_simps [simp]:
  "self (logger_info m s) = self s"
  "heap (logger_info m s) = heap s"
  "files (logger_info m s) = files s"
  "dirs (logger_info m s) = dirs s"
  "ticks (logger_info m s) = ticks s"
  "events (logger_info m s) = events s @ [LogInfo m]"
  by (simp_all add: logger_info_def)

lemma expand_dir_simps [simp]:
  "self (expand_dir a u fnames s) = self s"
  "files (expand_dir a u fnames s) = files s"
  "dirs (expand_dir a u fnames s) = dirs s"
  "ticks (expand_dir a u fnames s) = ticks s"
  "events (expand_dir a u fnames s) = events s"
  "heap (expand_dir a u fnames s) =
     (heap s)(a := (heap s a)\<lparr>url_s := UrlList (map (\<lambda>f. u @ ''/'' @ f) fnames), is_dir := False\<rparr>)"
  by (simp_all add: expand_dir_def Let_def)

lemma update_cache_record_simps [simp]:
  "heap (update_cache_record e r s) = heap s"
  "dirs (update_cache_record e r s) = dirs s"
  "events (update_cache_record e r s) = events s"
  "ticks (update_cache_record e r s) = Suc (ticks s)"
  "cache_dir (self (update_cache_record e r s)) = cache_dir (self s)"
  "cache_file (self (update_cache_record e r s)) = cache_file (self s)"
  "cache_dict (self (update_cache_record e r s)) =
     (cache_dict (self s))(name r \<mapsto>
        \<lparr>url = url_s r, date_downloaded = DateTime (clock e (ticks s)),
         record_lifetime = lifetime r\<rparr>)"
  "files (update_cache_record e r s) =
     (files s)(cache_file (self s) \<mapsto> json_dump (cache_dict (self (update_cache_record e r s))))"
  by (simp_all add: update_cache_record_def datetime_now_def Let_def)

lemma cache_expired_cases:
  "cache_expired e r s = (x, s1) \<Longrightarrow> s1 = s \<or> s1 = s\<lparr>ticks := Suc (ticks s)\<rparr>"
  by (auto simp: cache_expired_def datetime_now_def split: option.splits sum.splits)

lemma cache_expired_result:
  "cache_expired e r s = (x, s1) \<Longrightarrow>
   self s1 = self s \<and> heap s1 = heap s \<and> files s1 = files s \<and> dirs s1 = dirs s \<and>
   events s1 = events s \<and> ticks s \<le> ticks s1"
  by (drule cache_expired_cases) auto

lemma retrieve_result:
  "retrieve e u f p kh s = (x, s1) \<Longrightarrow>
   same_but_events s s1 \<and> (\<exists>proc. events s1 = events s @ [Retrieve u kh f p proc])"
  by (auto simp: retrieve_def pooch_call_def same_but_events_def split: if_splits)

lemma retrieve_urls_result:
  "retrieve_urls e r us ps s = (x, s') \<Longrightarrow>
   same_but_events s s' \<and> (\<exists>es. events s' = events s @ es \<and> listings es = [])"
proof (induction us arbitrary: ps s)
  case Nil
  then show ?case by (auto simp: same_but_events_def)
next
  case (Cons u us)
  obtain x1 s1 where r: "retrieve e u (name r @ ''_'' @ slice_from u (py_rfind u CHR ''/'' + 1))
             (path_join (cache_dir (self s)) (name r)) None s = (x1, s1)"
    by fastforce
  note r1 = retrieve_result [OF r]
  show ?case
  proof (cases x1)
    case (Inl err)
    with Cons.prems r have "s' = s1" by simp
    with r1 show ?thesis by auto
  next
    case (Inr p)
    with Cons.prems r have "retrieve_urls e r us (ps @ [p]) s1 = (x, s')" by simp
    from Cons.IH [OF this] r1 show ?thesis by (auto simp: same_but_events_def)
  qed
qed

lemma retrieve_urls_ok:
  "retrieve_urls e r us ps s = (Inr qs, s') \<Longrightarrow>
   length qs = length ps + length us \<and>
   retrievals (events s') = retrievals (events s) @
     map (\<lambda>u. (u, name r @ ''_'' @ slice_from u (py_rfind u CHR ''/'' + 1),
               path_join (cache_dir (self s)) (name r))) us"
proof (induction us arbitrary: ps s)
  case Nil
  then show ?case by auto
next
  case (Cons u us)
  obtain x1 s1 where r: "retrieve e u (name r @ ''_'' @ slice_from u (py_rfind u CHR ''/'' + 1))
             (path_join (cache_dir (self s)) (name r)) None s = (x1, s1)"
    by fastforce
  note r1 = retrieve_result [OF r]
  show ?case
  proof (cases x1)
    case (Inl err)
    with Cons.prems r show ?thesis by simp
  next
    case (Inr p)
    with Cons.prems r have "retrieve_urls e r us (ps @ [p]) s1 = (Inr qs, s')" by simp
    from Cons.IH [OF this] r1 show ?thesis by (auto simp: same_but_events_def)
  qed
qed

lemma retrieve_files_result:
  "retrieve_files e r s = (x, s') \<Longrightarrow>
   same_but_events s s' \<and> (\<exists>es. events s' = events s @ es \<and> listings es = [])"
  unfolding retrieve_files_def
  by (auto split: url_value.splits prod.splits sum.splits
      dest!: retrieve_urls_result retrieve_result)

lemma get_files_result:
  "get_files e r s = (x, s') \<Longrightarrow>
   same_but_events s s' \<and> (\<exists>es. events s' = events s @ es \<and> retrievals es = [])"
  by (auto simp: get_files_def Let_def same_but_events_def split: url_value.splits if_splits)

lemma get_files_ok:
  "get_files e r s = (Inr fnames, s') \<Longrightarrow>
   \<exists>u. url_s r = Url u \<and> startswith u ''ftp://'' \<and>
       ftp_nlst e (ftp_host u) (ftp_dir u) = Inr fnames \<and>
       events s' = events s @ [FtpList (ftp_host u) (ftp_dir u)]"
  by (auto simp: get_files_def split: url_value.splits if_splits)

lemma ftp_host_dir:
  assumes "CHR ''/'' \<notin> set h"
  shows "ftp_host (''ftp://'' @ h @ ''/'' @ d) = h" and "ftp_dir (''ftp://'' @ h @ ''/'' @ d) = d"
proof -
  have t: "takeWhile (\<lambda>x. x \<noteq> CHR ''/'') (h @ CHR ''/'' # d) = h"
    using assms by (simp add: takeWhile_append)
  show 1: "ftp_host (''ftp://'' @ h @ ''/'' @ d) = h"
    using t by (simp add: ftp_host_def slice_from_def slice_to_def py_find_def)
  have n: "nat (7 + int (length h)) = length (''ftp://'' @ h @ ''/'')" by simp
  have g: "drop (length xs) (xs @ ys) = ys" for xs ys :: string by simp
  have "drop (length (''ftp://'' @ h @ ''/'')) ((''ftp://'' @ h @ ''/'') @ d) = d"
    by (rule g)
  then show "ftp_dir (''ftp://'' @ h @ ''/'' @ d) = d"
    unfolding ftp_dir_def 1 slice_from_def n by simp
qed

lemma cache_hit:
  "cache_expired e (heap s a) s = (Inr False, s1) \<Longrightarrow> cache \<Longrightarrow>
   download_or_cache e a cache s = (Inr PNone, s1)"
  by (subst download_or_cache.simps) simp

lemma cache_check_raises:
  "cache_expired e (heap s a) s = (Inl err, s1) \<Longrightarrow>
   download_or_cache e a cache s = (Inl err, s1)"
  by (subst download_or_cache.simps) simp

text \<open>A call for a resource that is not a directory and that is downloaded.\<close>

lemma file_fetch:
  assumes nd: "\<not> is_dir (heap s a)"
    and ce: "cache_expired e (heap s a) s = (Inr x, s1)"
    and go: "x \<or> \<not> c"
    and res: "download_or_cache e a c s = (res, s')"
  shows "heap s' = heap s \<and> dirs s' = dirs s \<and>
         cache_dir (self s') = cache_dir (self s) \<and> cache_file (self s') = cache_file (self s) \<and>
         (\<exists>es. events s' = events s @ LogInfo (downloading (heap s a)) # es \<and> listings es = []) \<and>
         (\<forall>p. res = Inr p \<longrightarrow>
            cache_dict (self s') = (cache_dict (self s))(name (heap s a) \<mapsto>
               \<lparr>url = url_s (heap s a), date_downloaded = DateTime (clock e (ticks s1)),
                record_lifetime = lifetime (heap s a)\<rparr>) \<and>
            ticks s' = Suc (ticks s1) \<and>
            files s' = (files s)(cache_file (self s) \<mapsto> json_dump (cache_dict (self s'))))"
proof -
  note c1 = cache_expired_result [OF ce]
  obtain y s3 where rf: "retrieve_files e (heap s a) (logger_info (downloading (heap s a)) s1) = (y, s3)"
    by fastforce
  from retrieve_files_result [OF rf] c1
  have f3: "self s3 = self s" "heap s3 = heap s" "files s3 = files s" "dirs s3 = dirs s"
    "ticks s3 = ticks s1"
    and "\<exists>es. events s3 = events s @ LogInfo (downloading (heap s a)) # es \<and> listings es = []"
    by (auto simp: same_but_events_def)
  then obtain es where es: "events s3 = events s @ LogInfo (downloading (heap s a)) # es"
    "listings es = []" by blast
  show ?thesis
  proof (cases y)
    case (Inl err)
    with res nd ce go rf have "s' = s3" "res = Inl err"
      by (simp_all add: download_or_cache_file)
    with f3 es show ?thesis by simp
  next
    case (Inr p)
    with res nd ce go rf have "s' = update_cache_record e (heap s3 a) s3" "res = Inr p"
      by (simp_all add: download_or_cache_file)
    with f3 es show ?thesis by simp
  qed
qed

text \<open>The calls of \<open>pooch.retrieve\<close> for a list of URLs, when the call returns paths.\<close>

lemma list_fetch:
  assumes nd: "\<not> is_dir (heap s a)"
    and ul: "url_s (heap s a) = UrlList us"
    and res: "download_or_cache e a c s = (Inr (PList ps), s')"
  shows "length ps = length us \<and>
         retrievals (events s') = retrievals (events s) @
           map (\<lambda>u. (u, name (heap s a) @ ''_'' @ slice_from u (py_rfind u CHR ''/'' + 1),
                     path_join (cache_dir (self s)) (name (heap s a)))) us \<and>
         listings (events s') = listings (events s)"
proof -
  obtain y s1 where ce: "cache_expired e (heap s a) s = (y, s1)" by fastforce
  note c1 = cache_expired_result [OF ce]
  show ?thesis
  proof (cases y)
    case (Inl err)
    with res cache_check_raises [of e s a err s1 c] ce show ?thesis by simp
  next
    case (Inr x)
    show ?thesis
    proof (cases "x \<or> \<not> c")
      case False
      with Inr ce cache_hit [of e s a s1 c] res show ?thesis by simp
    next
      case True
      obtain z s3 where ru: "retrieve_urls e (heap s a) us []
          (logger_info (downloading (heap s a)) s1) = (z, s3)" by fastforce
      from res nd ce Inr True ul ru
      have z: "z = Inr ps" and s': "s' = update_cache_record e (heap s3 a) s3"
        by (auto simp: download_or_cache_file retrieve_files_def split: sum.splits)
      from retrieve_urls_ok [OF ru [unfolded z]] retrieve_urls_result [OF ru] c1 s'
      show ?thesis by auto
    qed
  qed
qed

text \<open>Any call for a resource that is not a directory.\<close>

lemma file_call:
  assumes nd: "\<not> is_dir (heap s a)"
    and res: "download_or_cache e a c s = (res, s')"
  shows "heap s' = heap s \<and> dirs s' = dirs s \<and>
         cache_dir (self s') = cache_dir (self s) \<and> cache_file (self s') = cache_file (self s) \<and>
         ticks s \<le> ticks s' \<and>
         (\<exists>es. events s' = events s @ es \<and> listings es = []) \<and>
         (cache_dict (self s') = cache_dict (self s) \<or>
          (\<exists>R. cache_dict (self s') = (cache_dict (self s))(name (heap s a) \<mapsto> R))) \<and>
         (files s' = files s \<or>
          files s' = (files s)(cache_file (self s) \<mapsto> json_dump (cache_dict (self s'))))"
proof -
  obtain y s1 where ce: "cache_expired e (heap s a) s = (y, s1)" by fastforce
  note c1 = cache_expired_result [OF ce]
  show ?thesis
  proof (cases y)
    case (Inl err)
    with res cache_check_raises [of e s a err s1 c] ce c1 show ?thesis by simp
  next
    case (Inr x)
    show ?thesis
    proof (cases "x \<or> \<not> c")
      case False
      with Inr ce cache_hit [of e s a s1 c] res c1 show ?thesis by simp
    next
      case True
      note ff = file_fetch [OF nd ce [unfolded Inr] True res]
      show ?thesis
      proof (cases res)
        case (Inl err)
        obtain z s3 where rf: "retrieve_files e (heap s a)
            (logger_info (downloading (heap s a)) s1) = (z, s3)" by fastforce
        with res nd ce Inr True Inl have "s' = s3"
          by (auto simp: download_or_cache_file split: sum.splits)
        with retrieve_files_result [OF rf] c1 ff show ?thesis
          by (auto simp: same_but_events_def)
      next
        case (Inr p)
        with ff c1 show ?thesis by auto
      qed
    qed
  qed
qed

text \<open>A call for a directory resource that is downloaded and whose listing succeeds.\<close>

lemma dir_fetch:
  assumes d: "is_dir (heap s a)"
    and ce: "cache_expired e (heap s a) s = (Inr x, s1)"
    and go: "x \<or> \<not> c"
    and gf: "get_files e (heap s a) (logger_info (downloading (heap s a)) s1) = (Inr fnames, s2)"
    and res: "download_or_cache e a c s = (res, s')"
  shows "\<exists>u. url_s (heap s a) = Url u \<and> startswith u ''ftp://'' \<and>
           ftp_nlst e (ftp_host u) (ftp_dir u) = Inr fnames \<and>
           heap s' = (heap s)(a := (heap s a)
              \<lparr>url_s := UrlList (map (\<lambda>f. u @ ''/'' @ f) fnames), is_dir := False\<rparr>) \<and>
           dirs s' = dirs s \<and>
           cache_dir (self s') = cache_dir (self s) \<and> cache_file (self s') = cache_file (self s) \<and>
           (\<exists>es. events s' = events s @ LogInfo (downloading (heap s a)) #
                     FtpList (ftp_host u) (ftp_dir u) # es \<and> listings es = []) \<and>
           (\<forall>p. res = Inr p \<longrightarrow>
              cache_dict (self s') = (cache_dict (self s))(name (heap s a) \<mapsto>
                 \<lparr>url = UrlList (map (\<lambda>f. u @ ''/'' @ f) fnames),
                  date_downloaded = DateTime (clock e (ticks s' - 1)),
                  record_lifetime = lifetime (heap s a)\<rparr>) \<and>
              ticks s < ticks s' \<and>
              files s' = (files s)(cache_file (self s) \<mapsto> json_dump (cache_dict (self s'))))"
proof -
  note c1 = cache_expired_result [OF ce]
  from get_files_ok [OF gf] obtain u where u: "url_s (heap s a) = Url u"
    "startswith u ''ftp://''" "ftp_nlst e (ftp_host u) (ftp_dir u) = Inr fnames"
    "events s2 = events s @ [LogInfo (downloading (heap s a)), FtpList (ftp_host u) (ftp_dir u)]"
    using c1 by auto
  from get_files_result [OF gf] c1
  have f2: "self s2 = self s" "heap s2 = heap s" "files s2 = files s" "dirs s2 = dirs s"
    "ticks s \<le> ticks s2"
    by (auto simp: same_but_events_def)
  define s4 where "s4 = expand_dir a u fnames s2"
  have f4: "self s4 = self s" "files s4 = files s" "dirs s4 = dirs s" "ticks s \<le> ticks s4"
    "events s4 = events s @ [LogInfo (downloading (heap s a)), FtpList (ftp_host u) (ftp_dir u)]"
    "heap s4 = (heap s)(a := (heap s a)
        \<lparr>url_s := UrlList (map (\<lambda>f. u @ ''/'' @ f) fnames), is_dir := False\<rparr>)"
    using f2 u by (simp_all add: s4_def)
  then have nd4: "\<not> is_dir (heap s4 a)" and n4: "name (heap s4 a) = name (heap s a)"
    and l4: "lifetime (heap s4 a) = lifetime (heap s a)"
    and u4: "url_s (heap s4 a) = UrlList (map (\<lambda>f. u @ ''/'' @ f) fnames)"
    by simp_all
  obtain y s5 where inner: "download_or_cache e a c s4 = (y, s5)" by fastforce
  note i5 = file_call [OF nd4 inner]
  from i5 f4 have h5: "heap s5 = heap s4" by simp
  show ?thesis
  proof (cases y)
    case (Inl err)
    with res d ce go gf u inner have "s' = s5" "res = Inl err"
      by (simp_all add: download_or_cache_dir s4_def)
    with i5 f4 u show ?thesis by auto
  next
    case (Inr p)
    with res d ce go gf u inner
    have s': "s' = update_cache_record e (heap s5 a) s5" and r: "res = Inr p"
      by (simp_all add: download_or_cache_dir s4_def)
    from i5 have cd: "(cache_dict (self s5))(name (heap s a) \<mapsto> R) =
        (cache_dict (self s))(name (heap s a) \<mapsto> R)" for R
      using n4 f4(1) by auto
    from i5 have fl: "(files s5)(cache_file (self s) \<mapsto> F) = (files s)(cache_file (self s) \<mapsto> F)" for F
      using f4(1,2) by auto
    from i5 f4 have m: "cache_file (self s5) = cache_file (self s)" "cache_dir (self s5) = cache_dir (self s)"
      "dirs s5 = dirs s" "ticks s \<le> ticks s5" by auto
    from i5 f4 obtain es where es: "events s5 = events s @ LogInfo (downloading (heap s a)) #
                     FtpList (ftp_host u) (ftp_dir u) # es" "listings es = []" by auto
    show ?thesis
      using u s' r h5 f4(6) n4 l4 u4 cd fl m es by (auto simp: le_imp_less_Suc)
  qed
qed



lemma dir_returns_list:
  assumes d: "is_dir (heap s a)"
    and res: "download_or_cache e a cache s = (Inr (PList ps), s')"
  shows "\<exists>u fnames.
           url_s (heap s a) = Url u \<and> startswith u ''ftp://'' \<and>
           ftp_nlst e (ftp_host u) (ftp_dir u) = Inr fnames \<and>
           url_s (heap s' a) = UrlList (map (\<lambda>f. u @ ''/'' @ f) fnames) \<and>
           \<not> is_dir (heap s' a) \<and>
           listings (events s') = listings (events s) @ [(ftp_host u, ftp_dir u)] \<and>
           length ps = length fnames \<and>
           retrievals (events s') = retrievals (events s) @
             map (\<lambda>f. (u @ ''/'' @ f,
                       name (heap s a) @ ''_'' @
                         slice_from (u @ ''/'' @ f) (py_rfind (u @ ''/'' @ f) CHR ''/'' + 1),
                       path_join (cache_dir (self s)) (name (heap s a)))) fnames"
proof -
  obtain y s1 where ce: "cache_expired e (heap s a) s = (y, s1)" by fastforce
  note c1 = cache_expired_result [OF ce]
  from res ce cache_check_raises [of e s a _ s1 cache] obtain x where y: "y = Inr x"
    by (cases y) auto
  have go: "x \<or> \<not> cache"
    using res ce y cache_hit [of e s a s1 cache] by auto
  obtain z s2 where gf: "get_files e (heap s a) (logger_info (downloading (heap s a)) s1) = (z, s2)"
    by fastforce
  from res d ce y go gf obtain fnames where z: "z = Inr fnames"
    by (cases z) (auto simp: download_or_cache_dir)
  note gf' = gf [unfolded z] and ce' = ce [unfolded y]
  from dir_fetch [OF d ce' go gf' res] obtain u es where u: "url_s (heap s a) = Url u"
    "startswith u ''ftp://''" "ftp_nlst e (ftp_host u) (ftp_dir u) = Inr fnames"
    "heap s' = (heap s)(a := (heap s a)
        \<lparr>url_s := UrlList (map (\<lambda>f. u @ ''/'' @ f) fnames), is_dir := False\<rparr>)"
    by blast
  define s4 where "s4 = expand_dir a u fnames s2"
  from get_files_ok [OF gf'] get_files_result [OF gf'] c1 u(1)
  have f4: "self s4 = self s"
    "events s4 = events s @ [LogInfo (downloading (heap s a)), FtpList (ftp_host u) (ftp_dir u)]"
    "heap s4 a = (heap s a)\<lparr>url_s := UrlList (map (\<lambda>f. u @ ''/'' @ f) fnames), is_dir := False\<rparr>"
    by (auto simp: s4_def same_but_events_def)
  obtain s5 where inner: "download_or_cache e a cache s4 = (Inr (PList ps), s5)"
    and s': "s' = update_cache_record e (heap s5 a) s5"
    using res d ce' go gf' u(1)
    by (auto simp: download_or_cache_dir s4_def split: prod.splits sum.splits)
  have nd4: "\<not> is_dir (heap s4 a)" and u4: "url_s (heap s4 a) = UrlList (map (\<lambda>f. u @ ''/'' @ f) fnames)"
    using f4 by simp_all
  from list_fetch [OF nd4 u4 inner] f4 s'
  have l: "length ps = length fnames"
    and r: "retrievals (events s') = retrievals (events s) @
             map (\<lambda>f. (u @ ''/'' @ f,
                       name (heap s a) @ ''_'' @
                         slice_from (u @ ''/'' @ f) (py_rfind (u @ ''/'' @ f) CHR ''/'' + 1),
                       path_join (cache_dir (self s)) (name (heap s a)))) fnames"
    and li: "listings (events s') = listings (events s) @ [(ftp_host u, ftp_dir u)]"
    by (simp_all add: comp_def)
  from u l r li show ?thesis by auto
qed




text \<open>The download branch opens with its log line.\<close>

lemma download_branch_logs:
  assumes ce: "cache_expired e (heap s a) s = (Inr x, s1)" and go: "x \<or> \<not> c"
  shows "\<exists>es. events (snd (download_or_cache e a c s)) =
           events s @ LogInfo (downloading (heap s a)) # es"
proof -
  obtain res s' where res: "download_or_cache e a c s = (res, s')" by fastforce
  note c1 = cache_expired_result [OF ce]
  show ?thesis
  proof (cases "is_dir (heap s a)")
    case False
    from file_fetch [OF False ce go res] res show ?thesis by auto
  next
    case True
    obtain z s2 where gf: "get_files e (heap s a) (logger_info (downloading (heap s a)) s1) = (z, s2)"
      by fastforce
    show ?thesis
    proof (cases z)
      case (Inl err)
      with res True ce go gf have "s' = s2" by (simp add: download_or_cache_dir)
      with get_files_result [OF gf] c1 res show ?thesis by auto
    next
      case (Inr fnames)
      from dir_fetch [OF True ce go gf [unfolded Inr] res] res show ?thesis by auto
    qed
  qed
qed

text \<open>
  After a call that downloaded, the record holds a \<open>datetime\<close> object, and the next call
  for the same resource on this \<open>Downloader\<close> raises in \<open>fromisoformat\<close>.
\<close>

lemma downloaded_record_is_datetime:
  assumes ce: "cache_expired e (heap s a) s = (Inr x, s1)" and go: "x \<or> \<not> c"
    and res: "download_or_cache e a c s = (Inr p, s')"
  shows "name (heap s' a) = name (heap s a) \<and>
         cache_dict (self s') (name (heap s a)) =
           Some \<lparr>url = url_s (heap s' a), date_downloaded = DateTime (clock e (ticks s' - 1)),
                 record_lifetime = lifetime (heap s a)\<rparr>"
proof (cases "is_dir (heap s a)")
  case False
  from file_fetch [OF False ce go res] show ?thesis by simp
next
  case True
  obtain z s2 where gf: "get_files e (heap s a) (logger_info (downloading (heap s a)) s1) = (z, s2)"
    by fastforce
  show ?thesis
  proof (cases z)
    case (Inl err)
    with res True ce go gf show ?thesis by (simp add: download_or_cache_dir)
  next
    case (Inr fnames)
    from dir_fetch [OF True ce go gf [unfolded Inr] res] show ?thesis by auto
  qed
qed

lemma second_call_raises:
  assumes ce: "cache_expired e (heap s a) s = (Inr x, s1)" and go: "x \<or> \<not> c"
    and res: "download_or_cache e a c s = (Inr p, s')"
  shows "download_or_cache e a c' s' = (Inl TypeError, s')"
proof -
  from downloaded_record_is_datetime [OF ce go res]
  have "cache_expired e (heap s' a) s' = (Inl TypeError, s')"
    by (simp add: cache_expired_def get_cache_record_def)
  then show ?thesis by (rule cache_check_raises)
qed

text \<open>
  What the next run finds: the cache file holds the dates as text, a new \<open>Downloader\<close>
  loads the file as it is, and so the record of a download comes back with the text of
  its instant.
\<close>

lemma stored_dates_are_text:
  "json_dump d = JsonDoc d' \<Longrightarrow> d' k = Some r \<Longrightarrow> \<exists>t. date_downloaded r = IsoText t"
proof -
  assume a: "json_dump d = JsonDoc d'" and b: "d' k = Some r"
  from a have "d' k = map_option (\<lambda>r. r\<lparr>date_downloaded := json_default (date_downloaded r)\<rparr>) (d k)"
    by (auto simp: json_dump_def)
  with b obtain r0 where "r = r0\<lparr>date_downloaded := json_default (date_downloaded r0)\<rparr>"
    by auto
  then show ?thesis by (cases "date_downloaded r0") auto
qed

lemma Downloader_init_loads:
  assumes "files s (path_join d ''cache.json'') = Some (JsonDoc dict)" and "d \<noteq> []"
  shows "fst (Downloader_init e d s) = Inr () \<and>
         self (snd (Downloader_init e d s)) =
           \<lparr>cache_dir = d, cache_file = path_join d ''cache.json'', cache_dict = dict\<rparr>"
  using assms
  by (auto simp: Downloader_init_def load_cache_dict_def Let_def path_exists_def logger_info_def)

lemma next_run_finds_text:
  assumes ce: "cache_expired e (heap s a) s = (Inr x, s1)" and go: "x \<or> \<not> c"
    and res: "download_or_cache e a c s = (Inr p, s')"
    and cf: "cache_file (self s) = path_join (cache_dir (self s)) ''cache.json''"
    and cd: "cache_dir (self s) \<noteq> []"
  shows "cache_dict (self (snd (Downloader_init e' (cache_dir (self s)) s'))) (name (heap s a)) =
           Some \<lparr>url = url_s (heap s' a), date_downloaded = IsoText (clock e (ticks s' - 1)),
                 record_lifetime = lifetime (heap s a)\<rparr>"
proof -
  have "cache_dict (self s') (name (heap s a)) =
           Some \<lparr>url = url_s (heap s' a), date_downloaded = DateTime (clock e (ticks s' - 1)),
                 record_lifetime = lifetime (heap s a)\<rparr> \<and>
        files s' (cache_file (self s)) = Some (json_dump (cache_dict (self s')))"
  proof (cases "is_dir (heap s a)")
    case False
    from file_fetch [OF False ce go res] show ?thesis by simp
  next
    case True
    obtain z s2 where gf: "get_files e (heap s a) (logger_info (downloading (heap s a)) s1) = (z, s2)"
      by fastforce
    show ?thesis
    proof (cases z)
      case (Inl err)
      with res True ce go gf show ?thesis by (simp add: download_or_cache_dir)
    next
      case (Inr fnames)
      from dir_fetch [OF True ce go gf [unfolded Inr] res] show ?thesis by auto
    qed
  qed
  then have r: "cache_dict (self s') (name (heap s a)) =
           Some \<lparr>url = url_s (heap s' a), date_downloaded = DateTime (clock e (ticks s' - 1)),
                 record_lifetime = lifetime (heap s a)\<rparr>"
    and f: "files s' (path_join (cache_dir (self s)) ''cache.json'') =
           Some (JsonDoc (\<lambda>k. map_option
              (\<lambda>r. r\<lparr>date_downloaded := json_default (date_downloaded r)\<rparr>)
              (cache_dict (self s') k)))"
    using cf by (simp_all add: json_dump_def)
  from Downloader_init_loads [OF f cd, of e'] r show ?thesis by simp
qed

text \<open>\<open>download\<close> of a single resource is one call of \<open>_download_or_cache\<close>.\<close>

lemma download_single:
  "download e [a] s = (Inr ps, s') \<Longrightarrow> \<exists>p. download_or_cache e a True s = (Inr p, s')"
  by (auto simp: download_def split: prod.splits sum.splits if_splits)

lemma download_single_raises:
  "fst (download_or_cache e a True s) = Inl err \<Longrightarrow> fst (download e [a] s) = Inl err"
  by (cases "download_or_cache e a True s") (simp add: download_def)

lemma download_single_state:
  "snd (download e [a] s) = snd (download_or_cache e a True s)"
  by (cases "download_or_cache e a True s")
    (auto simp: download_def split: sum.splits)

lemmas evaluation = path_join_def
  startswith_def endswith_def logger_info_def download_def
  download_or_cache.simps cache_expired_def get_cache_record_def datetime_now_def
  retrieve_files_def retrieve_def pooch_call_def update_cache_record_def
  slice_from_def py_rfind_def timedelta_def datetime_add_def downloading_def
  example_env_def Resource_init_def Let_def

lemmas dir_evaluation = get_files_def expand_dir_def ftp_host_def ftp_dir_def py_find_def
  slice_to_def

section \<open>The freshness decision\<close>

text \<open>
  A record read from the store has the text of its instant \<open>dl\<close> under \<open>date_downloaded\<close>.
  For such a record the check computes \<open>due = dl + lifetime\<close> days, reads the clock once, and
  finds the resource expired exactly when \<open>due\<close> is before that reading. The download branch
  is entered (its log line is written) exactly when the resource is expired or \<open>cache\<close> is
  false; otherwise the call returns \<open>None\<close> and leaves the state as it was, the clock reading
  apart.
\<close>

theorem freshness_decision:
  assumes "cache_dict (self s) (name (heap s a)) = Some cr"
    and "date_downloaded cr = IsoText dl"
    and "timedelta (lifetime (heap s a)) = Inr lt"
    and "datetime_add dl lt = Inr due"
  shows "due = dl + lifetime (heap s a) * 86400000000 \<and>
         cache_expired e (heap s a) s =
           (Inr (due < clock e (ticks s)), s\<lparr>ticks := Suc (ticks s)\<rparr>) \<and>
         ((\<exists>es. events (snd (download_or_cache e a cache s)) =
                  events s @ LogInfo (downloading (heap s a)) # es) =
          (due < clock e (ticks s) \<or> \<not> cache)) \<and>
         (\<not> (due < clock e (ticks s) \<or> \<not> cache) \<longrightarrow>
          download_or_cache e a cache s = (Inr PNone, s\<lparr>ticks := Suc (ticks s)\<rparr>))"
proof -
  have d: "due = dl + lifetime (heap s a) * 86400000000"
    using assms(3,4) by (auto simp: timedelta_def datetime_add_def split: if_splits)
  have ce: "cache_expired e (heap s a) s =
      (Inr (due < clock e (ticks s)), s\<lparr>ticks := Suc (ticks s)\<rparr>)"
    using assms by (simp add: cache_expired_def get_cache_record_def datetime_now_def)
  show ?thesis
  proof (cases "due < clock e (ticks s) \<or> \<not> cache")
    case True
    from download_branch_logs [OF ce True] d ce True show ?thesis by simp
  next
    case False
    then have h: "download_or_cache e a cache s = (Inr PNone, s\<lparr>ticks := Suc (ticks s)\<rparr>)"
      using cache_hit [of e s a "s\<lparr>ticks := Suc (ticks s)\<rparr>" cache] ce by simp
    with d ce False show ?thesis by simp
  qed
qed

theorem freshness_decision_witness:
  "cache_dict (self stored_state) (name (heap stored_state 0)) =
     Some \<lparr>url = Url ''http://h/a.txt'', date_downloaded = IsoText 0, record_lifetime = 2\<rparr> \<and>
   timedelta (lifetime (heap stored_state 0)) = Inr 172800000000 \<and>
   datetime_add 0 172800000000 = Inr 172800000000 \<and>
   cache_expired example_env (heap stored_state 0) stored_state =
     (Inr False, stored_state\<lparr>ticks := Suc 0\<rparr>) \<and>
   download_or_cache example_env 0 True stored_state =
     (Inr PNone, stored_state\<lparr>ticks := Suc 0\<rparr>)"
proof -
  have h1: "cache_dict (self stored_state) (name (heap stored_state 0)) =
     Some \<lparr>url = Url ''http://h/a.txt'', date_downloaded = IsoText 0, record_lifetime = 2\<rparr>"
    by (simp add: stored_state_def Resource_init_def)
  have h2: "date_downloaded \<lparr>url = Url ''http://h/a.txt'', date_downloaded = IsoText 0,
      record_lifetime = 2\<rparr> = IsoText 0"
    by simp
  have h3: "timedelta (lifetime (heap stored_state 0)) = Inr 172800000000"
    by (simp add: stored_state_def Resource_init_def timedelta_def)
  have h4: "datetime_add 0 172800000000 = Inr 172800000000"
    by (simp add: datetime_add_def)
  have c: "clock example_env (ticks stored_state) = 86400000000" "ticks stored_state = 0"
    by (simp_all add: example_env_def stored_state_def)
  show ?thesis
    using h1 h3 h4 freshness_decision [OF h1 h2 h3 h4, of example_env True] c by simp
qed

text \<open>
  C2. The record present after a download of this run: \<open>_update_cache_record\<close> has put a
  \<open>datetime\<close> object under \<open>date_downloaded\<close>, \<open>datetime.fromisoformat\<close> takes a string only,
  and so for every call that downloaded and returned, the next freshness check for the same
  resource on this \<open>Downloader\<close> classifies nothing: it raises \<open>TypeError\<close>, whatever the
  clock says and whether or not the caller bypasses the cache.
\<close>

theorem record_of_this_run_raises:
  assumes ce: "cache_expired e (heap s a) s = (Inr x, s1)" and go: "x \<or> \<not> c"
    and res: "download_or_cache e a c s = (Inr p, s')"
  shows "(\<exists>cr t. get_cache_record (heap s' a) s' = Some cr \<and> date_downloaded cr = DateTime t) \<and>
         cache_expired e' (heap s' a) s' = (Inl TypeError, s') \<and>
         download_or_cache e' a c' s' = (Inl TypeError, s')"
proof -
  note r = downloaded_record_is_datetime [OF ce go res]
  then have 1: "\<exists>cr t. get_cache_record (heap s' a) s' = Some cr \<and> date_downloaded cr = DateTime t"
    by (simp add: get_cache_record_def)
  then have 2: "cache_expired e' (heap s' a) s' = (Inl TypeError, s')"
    by (auto simp: cache_expired_def)
  from 1 2 cache_check_raises [OF 2] show ?thesis by blast
qed

theorem record_of_this_run_raises_witness:
  "cache_expired example_env (heap example_state 0) example_state = (Inr True, example_state) \<and>
   fst (download_or_cache example_env 0 True example_state) = Inr (PStr ''c/r/a.txt'') \<and>
   fst (download_or_cache example_env 0 True
          (snd (download_or_cache example_env 0 True example_state))) = Inl TypeError \<and>
   fst (download example_env [0] (snd (download example_env [0] example_state))) = Inl TypeError"
proof -
  have c: "cache_expired example_env (heap example_state 0) example_state =
      (Inr True, example_state)"
    by (simp add: cache_expired_def get_cache_record_def example_state_def Resource_init_def)
  have r: "fst (download_or_cache example_env 0 True example_state) = Inr (PStr ''c/r/a.txt'')"
    by (simp add: evaluation example_state_def)
  have go: "True \<or> \<not> True" by simp
  obtain s' where e: "download_or_cache example_env 0 True example_state =
      (Inr (PStr ''c/r/a.txt''), s')"
    using r by (metis prod.collapse)
  from record_of_this_run_raises [OF c go e, of example_env True]
  have t: "fst (download_or_cache example_env 0 True
          (snd (download_or_cache example_env 0 True example_state))) = Inl TypeError"
    unfolding e by simp
  then have "fst (download example_env [0] (snd (download example_env [0] example_state))) =
      Inl TypeError"
    unfolding download_single_state by (rule download_single_raises)
  with c r t show ?thesis by simp
qed

section \<open>A resource never seen before\<close>




section \<open>Calls that find the cache fresh, and permanent resources\<close>

text \<open>
  C1. A resource with a lifetime of two days was downloaded at the instant 0 and is asked
  for again one day later: nothing is retrieved, and the result of \<open>download\<close> holds \<open>None\<close>
  where the path of the resource should stand.
\<close>

theorem fresh_resource_returns_none:
  "download example_env [0] stored_state = (Inr [PNone], stored_state\<lparr>ticks := Suc 0\<rparr>)"
  by (simp add: evaluation stored_state_def)

text \<open>
  C3. A resource with lifetime 0 was downloaded at the instant 0 and is asked for again
  one day later: it is found expired and retrieved again.
\<close>

theorem permanent_resource_is_fetched_again:
  "fst (download example_env [0] permanent_state) = Inr [PStr ''c/r/a.txt''] \<and>
   retrievals (events (snd (download example_env [0] permanent_state))) =
     [(''http://h/a.txt'', ''a.txt'', ''c/r'')]"
  by (simp add: evaluation permanent_state_def)

section \<open>Directory resources\<close>

text \<open>The part of \<open>base/file\<close> behind its last slash is \<open>file\<close>, when \<open>file\<close> has no slash.\<close>

lemma rfind_after_slash:
  assumes "CHR ''/'' \<notin> set f"
  shows "slice_from (u @ ''/'' @ f) (py_rfind (u @ ''/'' @ f) CHR ''/'' + 1) = f"
proof -
  have t: "takeWhile (\<lambda>x. x \<noteq> CHR ''/'') (rev f @ CHR ''/'' # rev u) = rev f"
    using assms by (simp add: takeWhile_append)
  have g: "drop (length xs) (xs @ ys) = ys" for xs ys :: string by simp
  have r: "py_rfind (u @ ''/'' @ f) CHR ''/'' + 1 = int (length (u @ ''/''))"
    using t by (simp add: py_rfind_def)
  have n: "nat (int (length (u @ ''/''))) = length (u @ ''/'')" by simp
  have "drop (length (u @ ''/'')) ((u @ ''/'') @ f) = f" by (rule g)
  then have "drop (nat (int (length (u @ ''/'')))) (u @ ''/'' @ f) = f"
    unfolding n by simp
  then show ?thesis unfolding r slice_from_def by (simp del: length_append drop_append)
qed

text \<open>
  C7. When a call for a directory resource returns a list of paths, the URL of the
  resource is an ftp URL, the listing collaborator was asked once, for the host and the
  directory of that URL, and the resource now has \<open>is_dir\<close> false and as \<open>url_s\<close> the list of
  \<open>base/file\<close>, one per listed name. \<open>pooch.retrieve\<close> was called once per listed name, in
  order, for \<open>base/file\<close> under the local name \<open>name_\<close> followed by what stands behind the
  last slash of \<open>base/file\<close>: that is \<open>name_file\<close> when no listed name contains a slash.
\<close>

theorem directory_expansion:
  assumes d: "is_dir (heap s a)"
    and res: "download_or_cache e a cache s = (Inr (PList ps), s')"
  shows "\<exists>u fnames.
           url_s (heap s a) = Url u \<and> startswith u ''ftp://'' \<and>
           ftp_nlst e (ftp_host u) (ftp_dir u) = Inr fnames \<and>
           url_s (heap s' a) = UrlList (map (\<lambda>f. u @ ''/'' @ f) fnames) \<and>
           \<not> is_dir (heap s' a) \<and>
           listings (events s') = listings (events s) @ [(ftp_host u, ftp_dir u)] \<and>
           length ps = length fnames \<and>
           retrievals (events s') = retrievals (events s) @
             map (\<lambda>f. (u @ ''/'' @ f,
                       name (heap s a) @ ''_'' @
                         slice_from (u @ ''/'' @ f) (py_rfind (u @ ''/'' @ f) CHR ''/'' + 1),
                       path_join (cache_dir (self s)) (name (heap s a)))) fnames \<and>
           ((\<forall>f \<in> set fnames. CHR ''/'' \<notin> set f) \<longrightarrow>
              retrievals (events s') = retrievals (events s) @
                map (\<lambda>f. (u @ ''/'' @ f, name (heap s a) @ ''_'' @ f,
                          path_join (cache_dir (self s)) (name (heap s a)))) fnames)"
proof -
  from dir_returns_list [OF d res] obtain u fnames where x:
    "url_s (heap s a) = Url u" "startswith u ''ftp://''"
    "ftp_nlst e (ftp_host u) (ftp_dir u) = Inr fnames"
    "url_s (heap s' a) = UrlList (map (\<lambda>f. u @ ''/'' @ f) fnames)"
    "\<not> is_dir (heap s' a)"
    "listings (events s') = listings (events s) @ [(ftp_host u, ftp_dir u)]"
    "length ps = length fnames"
    and r: "retrievals (events s') = retrievals (events s) @
             map (\<lambda>f. (u @ ''/'' @ f,
                       name (heap s a) @ ''_'' @
                         slice_from (u @ ''/'' @ f) (py_rfind (u @ ''/'' @ f) CHR ''/'' + 1),
                       path_join (cache_dir (self s)) (name (heap s a)))) fnames"
    by blast
  have r2: "retrievals (events s') = retrievals (events s) @
                map (\<lambda>f. (u @ ''/'' @ f, name (heap s a) @ ''_'' @ f,
                          path_join (cache_dir (self s)) (name (heap s a)))) fnames"
    if "\<forall>f \<in> set fnames. CHR ''/'' \<notin> set f"
    unfolding r using that rfind_after_slash [of _ u] by (auto intro!: map_cong)
  from x r r2 show ?thesis by auto
qed

theorem directory_expansion_witness:
  "is_dir (heap dir_state 0) \<and>
   fst (download_or_cache example_env 0 True dir_state) =
     Inr (PList [PStr ''c/d/d_a.txt'', PStr ''c/d/d_b.gz'']) \<and>
   url_s (heap (snd (download_or_cache example_env 0 True dir_state)) 0) =
     UrlList [''ftp://h/x/a.txt'', ''ftp://h/x/b.gz''] \<and>
   \<not> is_dir (heap (snd (download_or_cache example_env 0 True dir_state)) 0) \<and>
   listings (events (snd (download_or_cache example_env 0 True dir_state))) = [(''h'', ''x'')] \<and>
   retrievals (events (snd (download_or_cache example_env 0 True dir_state))) =
     [(''ftp://h/x/a.txt'', ''d_a.txt'', ''c/d''), (''ftp://h/x/b.gz'', ''d_b.gz'', ''c/d'')]"
proof -
  have d: "is_dir (heap dir_state 0)"
    by (simp add: dir_state_def Resource_init_def)
  have r: "fst (download_or_cache example_env 0 True dir_state) =
     Inr (PList [PStr ''c/d/d_a.txt'', PStr ''c/d/d_b.gz''])"
    by (simp add: evaluation dir_evaluation dir_state_def)
  obtain s' where e: "download_or_cache example_env 0 True dir_state =
     (Inr (PList [PStr ''c/d/d_a.txt'', PStr ''c/d/d_b.gz'']), s')"
    using r by (metis prod.collapse)
  from directory_expansion [OF d e] obtain u fnames where x:
    "url_s (heap dir_state 0) = Url u"
    "ftp_nlst example_env (ftp_host u) (ftp_dir u) = Inr fnames"
    "url_s (heap s' 0) = UrlList (map (\<lambda>f. u @ ''/'' @ f) fnames)"
    "\<not> is_dir (heap s' 0)"
    "listings (events s') = listings (events dir_state) @ [(ftp_host u, ftp_dir u)]"
    "(\<forall>f \<in> set fnames. CHR ''/'' \<notin> set f) \<longrightarrow>
       retrievals (events s') = retrievals (events dir_state) @
         map (\<lambda>f. (u @ ''/'' @ f, name (heap dir_state 0) @ ''_'' @ f,
                   path_join (cache_dir (self dir_state)) (name (heap dir_state 0)))) fnames"
    by blast
  from x(1) have u: "u = ''ftp://h/x''" by (simp add: dir_state_def Resource_init_def)
  from x(2) have f: "fnames = [''a.txt'', ''b.gz'']" by (simp add: example_env_def)
  have hd: "ftp_host ''ftp://h/x'' = ''h''" "ftp_dir ''ftp://h/x'' = ''x''"
    using ftp_host_dir [of "''h''" "''x''"] by simp_all
  have p: "path_join (cache_dir (self dir_state)) (name (heap dir_state 0)) = ''c/d''"
    "name (heap dir_state 0) = ''d''" "events dir_state = []"
    "path_join (cache_dir (self dir_state)) ''d'' = ''c/d''"
    by (simp_all add: dir_state_def Resource_init_def path_join_def startswith_def endswith_def)
  from x(3-6) d r show ?thesis
    unfolding u f hd p e snd_conv fst_conv by simp
qed

text \<open>
  C10. \<open>download\<close> of one directory resource that is expired (or unseen): when the call
  returns, the object at the address the caller passed holds the expanded list of URLs and
  \<open>is_dir\<close> false, every other object is as it was, and the base URL is gone.
\<close>

theorem directory_download_mutates_resource:
  assumes d: "is_dir (heap s a)" and u: "url_s (heap s a) = Url u"
    and ex: "fst (cache_expired e (heap s a) s) = Inr True"
    and res: "download e [a] s = (Inr ps, s')"
  shows "\<exists>fnames. ftp_nlst e (ftp_host u) (ftp_dir u) = Inr fnames \<and>
           heap s' = (heap s)(a := (heap s a)
              \<lparr>url_s := UrlList (map (\<lambda>f. u @ ''/'' @ f) fnames), is_dir := False\<rparr>) \<and>
           \<not> is_dir (heap s' a) \<and> url_s (heap s' a) \<noteq> url_s (heap s a)"
proof -
  from download_single [OF res] obtain p where r: "download_or_cache e a True s = (Inr p, s')"
    by blast
  obtain s1 where ce: "cache_expired e (heap s a) s = (Inr True, s1)"
    using ex by (metis prod.collapse)
  have go: "True \<or> \<not> True" by simp
  obtain z s2 where gf: "get_files e (heap s a) (logger_info (downloading (heap s a)) s1) = (z, s2)"
    by fastforce
  from r d ce gf obtain fnames where z: "z = Inr fnames"
    by (cases z) (auto simp: download_or_cache_dir)
  from dir_fetch [OF d ce go gf [unfolded z] r] u show ?thesis by auto
qed

theorem directory_download_mutates_resource_witness:
  "is_dir (heap dir_state 0) \<and> url_s (heap dir_state 0) = Url ''ftp://h/x'' \<and>
   fst (cache_expired example_env (heap dir_state 0) dir_state) = Inr True \<and>
   fst (download example_env [0] dir_state) = Inr [PStr ''c/d/d_a.txt'', PStr ''c/d/d_b.gz''] \<and>
   heap (snd (download example_env [0] dir_state)) 0 =
     \<lparr>name = ''d'', url_s = UrlList [''ftp://h/x/a.txt'', ''ftp://h/x/b.gz''], lifetime = 0,
      is_dir = False\<rparr>"
proof -
  have d: "is_dir (heap dir_state 0)" and u: "url_s (heap dir_state 0) = Url ''ftp://h/x''"
    by (simp_all add: dir_state_def Resource_init_def)
  have c: "fst (cache_expired example_env (heap dir_state 0) dir_state) = Inr True"
    by (simp add: cache_expired_def get_cache_record_def dir_state_def Resource_init_def)
  have r: "fst (download example_env [0] dir_state) =
      Inr [PStr ''c/d/d_a.txt'', PStr ''c/d/d_b.gz'']"
    by (simp add: evaluation dir_evaluation dir_state_def)
  obtain s' where e: "download example_env [0] dir_state =
      (Inr [PStr ''c/d/d_a.txt'', PStr ''c/d/d_b.gz''], s')"
    using r by (metis prod.collapse)
  have hd: "ftp_host ''ftp://h/x'' = ''h''" "ftp_dir ''ftp://h/x'' = ''x''"
    using ftp_host_dir [of "''h''" "''x''"] by simp_all
  from directory_download_mutates_resource [OF d u c e] obtain fnames where x:
    "ftp_nlst example_env (ftp_host ''ftp://h/x'') (ftp_dir ''ftp://h/x'') = Inr fnames"
    "heap s' = (heap dir_state)(0 := (heap dir_state 0)
        \<lparr>url_s := UrlList (map (\<lambda>f. ''ftp://h/x'' @ ''/'' @ f) fnames), is_dir := False\<rparr>)"
    by blast
  from x(1) have f: "fnames = [''a.txt'', ''b.gz'']" by (simp add: example_env_def)
  have "heap s' 0 = \<lparr>name = ''d'', url_s = UrlList [''ftp://h/x/a.txt'', ''ftp://h/x/b.gz''],
      lifetime = 0, is_dir = False\<rparr>"
    unfolding x(2) f by (simp add: dir_state_def Resource_init_def)
  with d u c r show ?thesis unfolding e snd_conv by simp
qed

text \<open>
  C8. A directory resource whose URL does not start with \<open>ftp://\<close>, once the call decides
  to download: \<open>_get_files\<close> returns a local that was never bound, so the call raises
  \<open>UnboundLocalError\<close>, and no collaborator was called.
\<close>

theorem directory_with_other_scheme_raises:
  assumes d: "is_dir (heap s a)" and u: "url_s (heap s a) = Url u"
    and nf: "\<not> startswith u ''ftp://''"
    and ce: "cache_expired e (heap s a) s = (Inr x, s1)" and go: "x \<or> \<not> cache"
  shows "fst (download_or_cache e a cache s) = Inl UnboundLocalError \<and>
         listings (events (snd (download_or_cache e a cache s))) = listings (events s) \<and>
         retrievals (events (snd (download_or_cache e a cache s))) = retrievals (events s)"
  using assms cache_expired_result [OF ce]
  by (simp add: download_or_cache_dir get_files_def)

theorem directory_with_other_scheme_raises_witness:
  "is_dir (heap http_dir_state 0) \<and> url_s (heap http_dir_state 0) = Url ''http://h/x'' \<and>
   \<not> startswith ''http://h/x'' ''ftp://'' \<and>
   cache_expired example_env (heap http_dir_state 0) http_dir_state = (Inr True, http_dir_state) \<and>
   fst (download_or_cache example_env 0 True http_dir_state) = Inl UnboundLocalError \<and>
   fst (download example_env [0] http_dir_state) = Inl UnboundLocalError"
proof -
  have d: "is_dir (heap http_dir_state 0)"
    and u: "url_s (heap http_dir_state 0) = Url ''http://h/x''"
    by (simp_all add: http_dir_state_def Resource_init_def)
  have n: "\<not> startswith ''http://h/x'' ''ftp://''" by (simp add: startswith_def)
  have c: "cache_expired example_env (heap http_dir_state 0) http_dir_state =
      (Inr True, http_dir_state)"
    by (simp add: cache_expired_def get_cache_record_def http_dir_state_def Resource_init_def)
  have go: "True \<or> \<not> True" by simp
  from directory_with_other_scheme_raises [OF d u n c go]
  have r: "fst (download_or_cache example_env 0 True http_dir_state) = Inl UnboundLocalError"
    by simp
  then have "fst (download example_env [0] http_dir_state) = Inl UnboundLocalError"
    by (rule download_single_raises)
  with d u n c r show ?thesis by simp
qed

section \<open>The result of a batch\<close>

lemma flatten_lists: "flatten (map PList xss) = Inr (concat xss)"
  by (induction xss) simp_all

lemma download_each_length:
  "download_each e as ps s = (Inr qs, s') \<Longrightarrow> \<exists>rs. qs = ps @ rs \<and> length rs = length as"
proof (induction as arbitrary: ps s)
  case Nil
  then show ?case by simp
next
  case (Cons a as)
  obtain y s1 where r: "download_or_cache e a True s = (y, s1)" by fastforce
  with Cons.prems obtain p where y: "y = Inr p" by (cases y) auto
  with Cons.prems r have "download_each e as (ps @ [p]) s1 = (Inr qs, s')" by simp
  from Cons.IH [OF this] show ?case by auto
qed

lemma unnested_batch:
  "download_each e as [] s = (Inr paths, s1) \<Longrightarrow> \<not> is_nested paths \<Longrightarrow>
   download e as s = (Inr paths, s1) \<and> length paths = length as"
  using download_each_length [of e as "[]" s paths s1] by (auto simp: download_def)

text \<open>
  C5. A batch of a single-file resource and a list resource, both unseen: the collected
  results are a string and a list, the comprehension runs through the string as it runs
  through the list, and the path of the first resource comes back as its characters.
\<close>

theorem mixed_batch_splits_path:
  "fst (download example_env [0, 1] mixed_state) =
     Inr [PStr ''c'', PStr ''/'', PStr ''r'', PStr ''/'', PStr ''a'', PStr ''.'', PStr ''t'',
          PStr ''x'', PStr ''t'', PStr ''c/m/m_b.txt'']"
  by (simp add: evaluation mixed_state_def)

section \<open>The retrieval adapter\<close>




section \<open>Construction of the cache manager\<close>

text \<open>
  C9. When the cache file exists and does not hold JSON, constructing the \<open>Downloader\<close>
  raises the error of \<open>json.load\<close>: no \<open>Downloader\<close> is set up, and the files are left as
  they were, so the store is not reset.
\<close>

theorem corrupt_cache_file_fails_fast:
  assumes "files s (path_join (if d = [] then tmpdir_name e else d) ''cache.json'') =
             Some (Malformed t)"
  shows "fst (Downloader_init e d s) = Inl JSONDecodeError \<and>
         self (snd (Downloader_init e d s)) = self s \<and>
         files (snd (Downloader_init e d s)) = files s"
  using assms
  by (auto simp: Downloader_init_def load_cache_dict_def Let_def path_exists_def logger_info_def)

theorem corrupt_cache_file_fails_fast_witness:
  "files corrupt_state (path_join (if ''c'' = [] then tmpdir_name example_env else ''c'')
      ''cache.json'') = Some (Malformed ''{not json'') \<and>
   fst (Downloader_init example_env ''c'' corrupt_state) = Inl JSONDecodeError \<and>
   self (snd (Downloader_init example_env ''c'' corrupt_state)) = self corrupt_state \<and>
   files (snd (Downloader_init example_env ''c'' corrupt_state)) = files corrupt_state"
proof -
  have h: "files corrupt_state
      (path_join (if ''c'' = [] then tmpdir_name example_env else ''c'') ''cache.json'') =
      Some (Malformed ''{not json'')"
    by (simp add: corrupt_state_def example_state_def path_join_def startswith_def endswith_def)
  show ?thesis
    using h corrupt_cache_file_fails_fast [OF h] by blast
qed

end
